theory Spec2Isabelle
  imports Main "HOL-Library.AList" "HOL-Library.Sublist"
begin

section \<open>JavaScript strings\<close>

text \<open>
  A source text, a path and a name are JavaScript strings. A string is modelled as a
  \<^typ>\<open>string\<close> whose characters are the code units below 256; the regular expressions of
  the program use the classes \<open>\s\<close>, \<open>\w\<close> and literal ASCII characters only, and every
  code unit from 128 on is outside \<open>\w\<close>.
\<close>

definition is_space_char :: "char \<Rightarrow> bool" where
  \<comment> \<open>the class \<open>\s\<close> (white space and line terminators), on code units below 256\<close>
  "is_space_char c =
     (c \<in> {CHR 0x09, CHR 0x0A, CHR 0x0B, CHR 0x0C, CHR 0x0D, CHR 0x20, CHR 0xA0})"

definition is_word_char :: "char \<Rightarrow> bool" where
  \<comment> \<open>the class \<open>\w\<close>: \<open>[A-Za-z0-9_]\<close>\<close>
  "is_word_char c =
     (c \<in> set ''abcdefghijklmnopqrstuvwxyzABCDEFGHIJKLMNOPQRSTUVWXYZ0123456789_'')"

definition is_line_terminator :: "char \<Rightarrow> bool" where
  "is_line_terminator c = (c = CHR 0x0A \<or> c = CHR 0x0D)"

definition js_trim :: "string \<Rightarrow> string" where
  "js_trim s = rev (dropWhile is_space_char (rev (dropWhile is_space_char s)))"

fun split_where :: "(char \<Rightarrow> bool) \<Rightarrow> string \<Rightarrow> string list" where
  \<comment> \<open>\<open>s.split(sep)\<close> for a separator that is one character of a class\<close>
  "split_where P [] = [[]]"
| "split_where P (c # cs) =
     (if P c then [] # split_where P cs
      else (case split_where P cs of [] \<Rightarrow> [[c]] | w # ws \<Rightarrow> (c # w) # ws))"

definition split_on :: "char \<Rightarrow> string \<Rightarrow> string list" where
  "split_on sep s = split_where (\<lambda>c. c = sep) s"

fun join_on :: "string \<Rightarrow> string list \<Rightarrow> string" where
  "join_on sep [] = []"
| "join_on sep [w] = w"
| "join_on sep (w # ws) = w @ sep @ join_on sep ws"

definition startsWith :: "string \<Rightarrow> string \<Rightarrow> bool" where
  "startsWith s p = (take (length p) s = p)"

fun includes_str :: "string \<Rightarrow> string \<Rightarrow> bool" where
  \<comment> \<open>\<open>s.includes(p)\<close>: \<open>p\<close> occurs in \<open>s\<close> as a substring\<close>
  "includes_str [] p = (p = [])"
| "includes_str (c # cs) p = (startsWith (c # cs) p \<or> includes_str cs p)"

definition lower_char :: "char \<Rightarrow> char" where
  "lower_char c =
     (let n = (of_char c :: nat)
      in if (65 \<le> n \<and> n \<le> 90) \<or> (192 \<le> n \<and> n \<le> 222 \<and> n \<noteq> 215)
         then char_of (n + 32) else c)"

definition toLowerCase :: "string \<Rightarrow> string" where
  "toLowerCase s = map lower_char s"

definition digit_char :: "nat \<Rightarrow> char" where
  "digit_char d = char_of (48 + d)"

fun decimal :: "nat \<Rightarrow> string" where
  "decimal n = (if n < 10 then [digit_char n] else decimal (n div 10) @ [digit_char (n mod 10)])"

declare decimal.simps [simp del]

definition truthy :: "string \<Rightarrow> bool" where
  \<comment> \<open>a string is falsy exactly when it is empty\<close>
  "truthy s = (s \<noteq> [])"

section \<open>The path module (POSIX)\<close>

text \<open>
  \<open>path.dirname\<close>, \<open>path.basename\<close>, \<open>path.extname\<close>, \<open>path.join\<close> and \<open>path.relative\<close> of
  the Node.js runtime, as documented for POSIX paths.
\<close>

definition last_component :: "string \<Rightarrow> string" where
  \<comment> \<open>the last portion of a path, trailing separators ignored\<close>
  "last_component p =
     rev (takeWhile (\<lambda>c. c \<noteq> CHR ''/'') (dropWhile (\<lambda>c. c = CHR ''/'') (rev p)))"

definition path_extname :: "string \<Rightarrow> string" where
  "path_extname p =
     (let b = last_component p;
          e = rev (takeWhile (\<lambda>c. c \<noteq> CHR ''.'') (rev b))
      in if CHR ''.'' \<notin> set b \<or> b = ''..'' \<or> length b = Suc (length e) then []
         else drop (length b - Suc (length e)) b)"

definition path_basename :: "string \<Rightarrow> string \<Rightarrow> string" where
  "path_basename p ext =
     (let b = last_component p
      in if ext \<noteq> [] \<and> ext = p then []
         else if ext \<noteq> [] \<and> length ext < length b \<and> suffix ext b
              then take (length b - length ext) b
         else b)"

definition path_dirname :: "string \<Rightarrow> string" where
  "path_dirname p =
     (if p = [] then ''.''
      else
        let hasRoot = (hd p = CHR ''/'');
            r = dropWhile (\<lambda>c. c \<noteq> CHR ''/'') (dropWhile (\<lambda>c. c = CHR ''/'') (rev (tl p)));
            e = length r
        in if r = [] then (if hasRoot then ''/'' else ''.'')
           else if hasRoot \<and> e = 1 then ''//''
           else take e p)"

fun resolve_dots :: "bool \<Rightarrow> string list \<Rightarrow> string list \<Rightarrow> string list" where
  \<comment> \<open>removes \<open>.\<close> and empty segments and resolves \<open>..\<close> against the segments before it\<close>
  "resolve_dots allowAbove acc [] = acc"
| "resolve_dots allowAbove acc (seg # segs) =
     (if seg = [] \<or> seg = ''.'' then resolve_dots allowAbove acc segs
      else if seg = ''..'' then
        (if acc \<noteq> [] \<and> last acc \<noteq> ''..'' then resolve_dots allowAbove (butlast acc) segs
         else if allowAbove then resolve_dots allowAbove (acc @ [seg]) segs
         else resolve_dots allowAbove acc segs)
      else resolve_dots allowAbove (acc @ [seg]) segs)"

definition isAbsolute :: "string \<Rightarrow> bool" where
  "isAbsolute p = (p \<noteq> [] \<and> hd p = CHR ''/'')"

definition path_normalize :: "string \<Rightarrow> string" where
  "path_normalize p =
     (if p = [] then ''.''
      else
        let trailing = (last p = CHR ''/'');
            body = join_on ''/'' (resolve_dots (\<not> isAbsolute p) [] (split_on CHR ''/'' p))
        in if body = [] then (if isAbsolute p then ''/'' else if trailing then ''./'' else ''.'')
           else (if isAbsolute p then ''/'' else []) @ body @ (if trailing then ''/'' else []))"

definition path_join :: "string \<Rightarrow> string \<Rightarrow> string" where
  "path_join a b =
     (if a = [] \<and> b = [] then ''.''
      else if a = [] then path_normalize b
      else if b = [] then path_normalize a
      else path_normalize (a @ ''/'' @ b))"

definition resolved_segments :: "string \<Rightarrow> string \<Rightarrow> string list" where
  \<comment> \<open>the segments of \<open>path.resolve(p)\<close> in the working directory \<open>cwd\<close>\<close>
  "resolved_segments cwd p =
     resolve_dots False [] (split_on CHR ''/'' (if isAbsolute p then p else cwd @ ''/'' @ p))"

fun common_prefix_length :: "string list \<Rightarrow> string list \<Rightarrow> nat" where
  "common_prefix_length (x # xs) (y # ys) =
     (if x = y then Suc (common_prefix_length xs ys) else 0)"
| "common_prefix_length _ _ = 0"

definition path_relative :: "string \<Rightarrow> string \<Rightarrow> string \<Rightarrow> string" where
  "path_relative cwd from to =
     (if from = to then []
      else
        let f = resolved_segments cwd from;
            t = resolved_segments cwd to;
            n = common_prefix_length f t
        in join_on ''/'' (replicate (length f - n) ''..'' @ drop n t))"

section \<open>Regular expressions\<close>

text \<open>
  The program's regular expressions are run by a backtracking matcher. A matcher state is
  the character before the current position (none at the start of the input), the rest of
  the input and the text of capture group 1 (none while the group has not taken part).
  \<open>ms r st\<close> lists the states in which \<open>r\<close> can end from \<open>st\<close>, in the order in which
  backtracking tries them; the first one is the match.
\<close>

type_synonym mstate = "char option \<times> string \<times> string option"

datatype re =
    Lit string
  | Cls "char \<Rightarrow> bool"
  | Seq re re
  | Alt re re
  | Star re
  | Grp re
  | WordB
  | Bol
  | Eoi

definition word_opt :: "char option \<Rightarrow> bool" where
  "word_opt c = (case c of None \<Rightarrow> False | Some x \<Rightarrow> is_word_char x)"

definition hd_opt :: "string \<Rightarrow> char option" where
  "hd_opt s = (case s of [] \<Rightarrow> None | x # _ \<Rightarrow> Some x)"

definition last_opt :: "char option \<Rightarrow> string \<Rightarrow> char option" where
  "last_opt p w = (if w = [] then p else Some (last w))"

fun ms :: "re \<Rightarrow> mstate \<Rightarrow> mstate list" where
  "ms (Lit w) (p, s, c) =
     (if take (length w) s = w then [(last_opt p w, drop (length w) s, c)] else [])"
| "ms (Cls P) (p, s, c) =
     (case s of [] \<Rightarrow> [] | x # xs \<Rightarrow> if P x then [(Some x, xs, c)] else [])"
| "ms (Seq a b) st = concat (map (ms b) (ms a st))"
| "ms (Alt a b) st = ms a st @ ms b st"
| "ms (Star a) (p, s, c) =
     concat (map (\<lambda>st'. if length (fst (snd st')) < length s then ms (Star a) st' else [])
                 (ms a (p, s, c))) @ [(p, s, c)]"
| "ms (Grp a) (p, s, c) =
     map (\<lambda>(p', s', c'). (p', s', Some (take (length s - length s') s))) (ms a (p, s, c))"
| "ms WordB (p, s, c) = (if word_opt p \<noteq> word_opt (hd_opt s) then [(p, s, c)] else [])"
| "ms Bol (p, s, c) =
     (case p of None \<Rightarrow> [(p, s, c)]
      | Some x \<Rightarrow> if is_line_terminator x then [(p, s, c)] else [])"
| "ms Eoi (p, s, c) = (if s = [] then [(p, s, c)] else [])"

definition Plus :: "re \<Rightarrow> re" where
  "Plus r = Seq r (Star r)"

definition Opt :: "re \<Rightarrow> re" where
  "Opt r = Alt r (Lit [])"

fun seqs :: "re list \<Rightarrow> re" where
  "seqs [] = Lit []"
| "seqs [r] = r"
| "seqs (r # rs) = Seq r (seqs rs)"

fun alts :: "re list \<Rightarrow> re" where
  "alts [] = Cls (\<lambda>c. False)"
| "alts [r] = r"
| "alts (r # rs) = Alt r (alts rs)"

record rmatch =
  m_index :: nat
  m_text :: string
  m_group :: "string option"
  m_prev :: "char option"
  m_rest :: string

fun search :: "re \<Rightarrow> char option \<Rightarrow> string \<Rightarrow> rmatch option" where
  \<comment> \<open>the leftmost match at or after the current position\<close>
  "search r p s =
     (case ms r (p, s, None) of
        (p', s', g) # _ \<Rightarrow>
          Some \<lparr>m_index = 0, m_text = take (length s - length s') s, m_group = g,
                m_prev = p', m_rest = s'\<rparr>
      | [] \<Rightarrow>
          (case s of [] \<Rightarrow> None
           | x # xs \<Rightarrow> map_option (\<lambda>m. m\<lparr>m_index := Suc (m_index m)\<rparr>) (search r (Some x) xs)))"

declare search.simps [simp del]

definition re_test :: "re \<Rightarrow> string \<Rightarrow> bool" where
  "re_test r s = (search r None s \<noteq> None)"

definition re_first_group :: "re \<Rightarrow> string \<Rightarrow> string option" where
  \<comment> \<open>\<open>s.match(r)\<close> for a regular expression without the \<open>g\<close> flag: group 1 of the first match\<close>
  "re_first_group r s = (case search r None s of None \<Rightarrow> None | Some m \<Rightarrow> m_group m)"


subsection \<open>Every match ends inside the input\<close>

lemma ms_suffix: "st' \<in> set (ms r st) \<Longrightarrow> suffix (fst (snd st')) (fst (snd st))"
proof (induction r st arbitrary: st' rule: ms.induct)
  case (1 w p s c)
  then show ?case by (auto split: if_splits simp: suffix_drop)
next
  case (2 P p s c)
  then show ?case by (auto split: list.splits if_splits simp: suffix_Cons)
next
  case (3 a b st)
  then obtain m where m: "m \<in> set (ms a st)" "st' \<in> set (ms b m)" by auto
  from 3(1)[OF m(1)] 3(2)[OF m(1) m(2)] show ?case by (rule suffix_order.trans[rotated])
next
  case (4 a b st)
  from 4(3) have "st' \<in> set (ms a st) \<or> st' \<in> set (ms b st)" by simp
  then show ?case using 4(1)[of st'] 4(2)[of st'] by blast
next
  case (5 a p s c)
  from 5(3) consider "st' = (p, s, c)"
    | m where "m \<in> set (ms a (p, s, c))" "length (fst (snd m)) < length s" "st' \<in> set (ms (Star a) m)"
    by (auto split: if_splits)
  then show ?case
  proof cases
    case 1 then show ?thesis by simp
  next
    case 2
    from 5(1)[OF 2(1)] 5(2)[OF 2(1) 2(2) 2(3)] show ?thesis
      by (auto intro: suffix_order.trans)
  qed
next
  case (6 a p s c)
  then show ?case by fastforce
next
  case (7 p s c) then show ?case by (auto split: if_splits)
next
  case (8 p s c) then show ?case by (auto split: if_splits option.splits)
next
  case (9 p s c) then show ?case by (auto split: if_splits)
qed

lemma search_decomp:
  "search r p s = Some m \<Longrightarrow> m_index m \<le> length s \<and> drop (m_index m) s = m_text m @ m_rest m"
proof (induction s arbitrary: p m)
  case Nil
  show ?case
  proof (cases "ms r (p, [], None)")
    case Nil
    with Nil.prems show ?thesis by (simp add: search.simps[of r p "[]"])
  next
    case (Cons st sts)
    obtain p' s' g where st: "st = (p', s', g)" by (cases st)
    have "st \<in> set (ms r (p, [], None))" using Cons by simp
    from ms_suffix[OF this] have "s' = []" by (simp add: st)
    then show ?thesis using Nil.prems Cons st by (auto simp: search.simps[of r p "[]"])
  qed
next
  case (Cons x xs)
  show ?case
  proof (cases "ms r (p, x # xs, None)")
    case Nil
    with Cons.prems obtain m' where m': "search r (Some x) xs = Some m'"
      "m = m'\<lparr>m_index := Suc (m_index m')\<rparr>"
      by (auto simp: search.simps[of r p "x # xs"])
    with Cons.IH[OF m'(1)] show ?thesis by simp
  next
    case (Cons st sts)
    obtain p' s' g where st: "st = (p', s', g)" by (cases st)
    have "st \<in> set (ms r (p, x # xs, None))" using Cons by simp
    from ms_suffix[OF this] have "suffix s' (x # xs)" by (simp add: st)
    then obtain t where t: "x # xs = t @ s'" by (auto simp: suffix_def)
    have "m = \<lparr>m_index = 0, m_text = take (length (x # xs) - length s') (x # xs), m_group = g,
                m_prev = p', m_rest = s'\<rparr>"
      using Cons.prems Cons st by (auto simp: search.simps[of r p "x # xs"])
    then show ?thesis using t by (metis append_eq_conv_conj drop0 le0 length_append add_diff_cancel_right' rmatch.select_convs(1,2,5))
  qed
qed


lemma search_rest_shorter:
  assumes "search r p s = Some m" "m_text m \<noteq> []"
  shows "length (m_rest m) < length s"
proof -
  from search_decomp[OF assms(1)]
  have "length (drop (m_index m) s) = length (m_text m) + length (m_rest m)" by simp
  moreover have "length (drop (m_index m) s) \<le> length s" by simp
  ultimately show ?thesis using assms(2) by (cases "m_text m") auto
qed

subsection \<open>All matches of a global regular expression\<close>

text \<open>
  \<open>s.match(r)\<close> for a regular expression with the \<open>g\<close> flag: the texts of the successive
  matches, each search starting where the match before ended (one position later after an
  empty match).
\<close>

function match_all :: "re \<Rightarrow> char option \<Rightarrow> string \<Rightarrow> string list" where
  "match_all r p s =
     (case search r p s of
        None \<Rightarrow> []
      | Some m \<Rightarrow>
          if m_text m = [] then
            (case drop (m_index m) s of
               [] \<Rightarrow> [m_text m]
             | x # xs \<Rightarrow> m_text m # match_all r (Some x) xs)
          else m_text m # match_all r (m_prev m) (m_rest m))"
  by pat_completeness auto
termination
proof (relation "measure (\<lambda>(r, p, s). length s)", goal_cases)
  case 1
  then show ?case by simp
next
  case (2 r p s m x xs)
  have "length (drop (m_index m) s) \<le> length s" by simp
  with 2(3) show ?case by simp
next
  case (3 r p s m)
  then show ?case using search_rest_shorter[of r p s m] by simp
qed

declare match_all.simps [simp del]



section \<open>The regular expressions of the analysis\<close>

definition space :: re where
  "space = Cls is_space_char"

definition word :: re where
  "word = Cls is_word_char"

text \<open>\<^verbatim>\<open>['"]\<close>\<close>

definition quote :: re where
  "quote = Cls (\<lambda>c. c = CHR 0x27 \<or> c = CHR 0x22)"

text \<open>\<^verbatim>\<open>{[^}]+}\<close>\<close>

definition braces :: re where
  "braces = seqs [Lit ''{'', Plus (Cls (\<lambda>c. c \<noteq> CHR ''}'')), Lit ''}'']"

text \<open>\<^verbatim>\<open>\([^)]*\)\<close>\<close>

definition parens :: re where
  "parens = seqs [Lit ''('', Star (Cls (\<lambda>c. c \<noteq> CHR '')'')), Lit '')'']"

text \<open>\<^verbatim>\<open>/import\s+(?:{[^}]+}|[\w]+|\*\s+as\s+\w+)?\s*(?:,\s*{[^}]+})?\s*from\s+['"]([^'"]+)['"]/g\<close>\<close>

definition importRegex :: re where
  "importRegex = seqs
     [Lit ''import'', Plus space,
      Opt (alts [braces, Plus word,
                 seqs [Lit ''*'', Plus space, Lit ''as'', Plus space, Plus word]]),
      Star space,
      Opt (seqs [Lit '','', Star space, braces]),
      Star space, Lit ''from'', Plus space, quote,
      Grp (Plus (Cls (\<lambda>c. c \<noteq> CHR 0x27 \<and> c \<noteq> CHR 0x22))), quote]"

text \<open>\<^verbatim>\<open>/export\s+(?:default\s+)?(?:function|const|class)\s+(\w+)/\<close>\<close>

definition exportRegex :: re where
  "exportRegex = seqs
     [Lit ''export'', Plus space, Opt (seqs [Lit ''default'', Plus space]),
      alts [Lit ''function'', Lit ''const'', Lit ''class''], Plus space, Grp (Plus word)]"

text \<open>\<^verbatim>\<open>/class\s+\w+\s+extends\s+(\w+)/\<close>\<close>

definition extendsRegex :: re where
  "extendsRegex = seqs
     [Lit ''class'', Plus space, Plus word, Plus space, Lit ''extends'', Plus space,
      Grp (Plus word)]"

text \<open>\<^verbatim>\<open>/class\s+\w+\s+implements\s+([\w,\s]+)/\<close>\<close>

definition implementsRegex :: re where
  "implementsRegex = seqs
     [Lit ''class'', Plus space, Plus word, Plus space, Lit ''implements'', Plus space,
      Grp (Plus (Cls (\<lambda>c. is_word_char c \<or> c = CHR '','' \<or> is_space_char c)))]"

text \<open>\<^verbatim>\<open>/(?:function\s+\w+|const\s+\w+\s*=\s*(?:async\s+)?\([^)]*\)\s*=>|^\s*\w+\s*\([^)]*\)\s*{)/gm\<close>\<close>

definition methodRegex :: re where
  "methodRegex = alts
     [seqs [Lit ''function'', Plus space, Plus word],
      seqs [Lit ''const'', Plus space, Plus word, Star space, Lit ''='', Star space,
            Opt (seqs [Lit ''async'', Plus space]), parens, Star space, Lit ''=>''],
      seqs [Bol, Star space, Plus word, Star space, parens, Star space, Lit ''{'']]"

definition trigger_keywords :: "string list" where
  "trigger_keywords = [''if'', ''else'', ''for'', ''while'', ''switch'', ''case'', ''catch'']"

text \<open>\<^verbatim>\<open>/\b(if|else|for|while|switch|case|catch)\b/g\<close>\<close>

definition complexityRegex :: re where
  "complexityRegex = seqs [WordB, Grp (alts (map Lit trigger_keywords)), WordB]"

text \<open>\<^verbatim>\<open>/\.(jsx?|tsx?)$/\<close>\<close>

definition testRegex :: re where
  "testRegex = seqs
     [Lit ''.'', Grp (alts [seqs [Lit ''js'', Opt (Lit ''x'')], seqs [Lit ''ts'', Opt (Lit ''x'')]]),
      Eoi]"

definition group1 :: "rmatch \<Rightarrow> string" where
  \<comment> \<open>\<open>match[1]\<close>, for a regular expression whose group 1 takes part in every match\<close>
  "group1 m = (case m_group m of None \<Rightarrow> [] | Some g \<Rightarrow> g)"

subsection \<open>A match of a pattern that starts with a literal is not empty\<close>

lemma search_sound:
  "search r p s = Some m \<Longrightarrow>
     \<exists>p' s'. (m_prev m, m_rest m, m_group m) \<in> set (ms r (p', s', None)) \<and>
             m_text m = take (length s' - length (m_rest m)) s'"
proof (induction s arbitrary: p m)
  case Nil
  show ?case
  proof (cases "ms r (p, [], None)")
    case Nil
    with Nil.prems show ?thesis by (simp add: search.simps[of r p "[]"])
  next
    case (Cons st sts)
    obtain p' s' g where st: "st = (p', s', g)" by (cases st)
    have "m = \<lparr>m_index = 0, m_text = take (length ([]::string) - length s') [], m_group = g,
                m_prev = p', m_rest = s'\<rparr>"
      using Nil.prems Cons st by (auto simp: search.simps[of r p "[]"])
    moreover have "(p', s', g) \<in> set (ms r (p, [], None))" using Cons st by simp
    ultimately show ?thesis by force
  qed
next
  case (Cons x xs)
  show ?case
  proof (cases "ms r (p, x # xs, None)")
    case Nil
    with Cons.prems obtain m' where m': "search r (Some x) xs = Some m'"
      "m = m'\<lparr>m_index := Suc (m_index m')\<rparr>"
      by (auto simp: search.simps[of r p "x # xs"])
    from Cons.IH[OF m'(1)] show ?thesis by (simp add: m'(2))
  next
    case (Cons st sts)
    obtain p' s' g where st: "st = (p', s', g)" by (cases st)
    have "m = \<lparr>m_index = 0, m_text = take (length (x # xs) - length s') (x # xs), m_group = g,
                m_prev = p', m_rest = s'\<rparr>"
      using Cons.prems Cons st by (auto simp: search.simps[of r p "x # xs"])
    moreover have "(p', s', g) \<in> set (ms r (p, x # xs, None))" using Cons st by simp
    ultimately show ?thesis by force
  qed
qed

lemma search_Lit_nonempty:
  assumes "search (Seq (Lit w) r) p s = Some m" "w \<noteq> []"
  shows "m_text m \<noteq> []"
proof -
  from search_sound[OF assms(1)] obtain p' s' where
    in_ms: "(m_prev m, m_rest m, m_group m) \<in> set (ms (Seq (Lit w) r) (p', s', None))" and
    mtext: "m_text m = take (length s' - length (m_rest m)) s'" by blast
  from in_ms have w: "take (length w) s' = w" and
    "(m_prev m, m_rest m, m_group m) \<in> set (ms r (last_opt p' w, drop (length w) s', None))"
    by (auto split: if_splits)
  from ms_suffix[OF this(2)] have a: "length (m_rest m) \<le> length s' - length w"
    by (auto dest: suffix_length_le)
  have "length (take (length w) s') = length w" using w by simp
  then have b: "length w \<le> length s'" by simp
  have c: "Suc 0 \<le> length w" using assms(2) by (cases w) auto
  from a b c have "0 < length s' - length (m_rest m)" by linarith
  moreover from b c have "s' \<noteq> []" by auto
  ultimately show ?thesis by (simp add: mtext)
qed

lemma importRegex_consumes:
  "search importRegex p s = Some m \<Longrightarrow> length (m_rest m) < length s"
proof -
  assume a: "search importRegex p s = Some m"
  then have "m_text m \<noteq> []"
    unfolding importRegex_def seqs.simps by (rule search_Lit_nonempty) simp
  with a show ?thesis by (rule search_rest_shorter)
qed

subsection \<open>The import scan\<close>

text \<open>
  The loop \<open>while ((match = importRegex.exec(content)) !== null)\<close>: the position after the
  last match is the state of the regular expression, \<open>dependencies\<close> the array the loop
  fills.
\<close>

function import_loop :: "char option \<Rightarrow> string \<Rightarrow> string list \<Rightarrow> string list" where
  "import_loop p s dependencies =
     (case search importRegex p s of
        None \<Rightarrow> dependencies
      | Some m \<Rightarrow>
          let importPath = group1 m
          in import_loop (m_prev m) (m_rest m)
               (if startsWith importPath ''.'' \<or> startsWith importPath ''/'' then
                  (let depName = path_basename importPath (path_extname importPath)
                   in if depName \<notin> set dependencies then dependencies @ [depName]
                      else dependencies)
                else dependencies))"
  by pat_completeness auto
termination
  by (relation "measure (\<lambda>(p, s, d). length s)") (auto dest: importRegex_consumes)

declare import_loop.simps [simp del]

definition replace_first :: "re \<Rightarrow> string \<Rightarrow> (rmatch \<Rightarrow> string) \<Rightarrow> string" where
  \<comment> \<open>\<open>s.replace(r, ...)\<close> for a regular expression without the \<open>g\<close> flag\<close>
  "replace_first r s replacement =
     (case search r None s of
        None \<Rightarrow> s
      | Some m \<Rightarrow> take (m_index m) s @ replacement m @ m_rest m)"


section \<open>The environment of a run\<close>

text \<open>
  The file system below the project directory is a tree. A regular file has its text, or
  none when it cannot be read; a directory has its entries in the order in which the
  system enumerates them, or none when it cannot be read; every other entry (a symbolic
  link, a socket) is neither a file nor a directory.
\<close>

datatype js_error = FsError string | TypeError string

datatype fsnode =
    RegFile "string option"
  | Directory "(string \<times> fsnode) list option"
  | Special

text \<open>
  The syntax tree of the TypeScript compiler, as far as \<open>parseWithTypeScript\<close> reads it: a
  class declaration has its name (if any), its heritage clauses (the keyword and the text
  of each type's expression), its members and its child nodes; an interface declaration
  its name, heritage clauses and child nodes; every other node its child nodes.
\<close>

datatype heritage_token = ExtendsKeyword | ImplementsKeyword

type_synonym heritage_clause = "heritage_token \<times> string list"

datatype ts_member = MethodDeclaration "string option" | OtherMember

datatype ts_node =
    ClassDeclaration "string option" "heritage_clause list option" "ts_member list" "ts_node list"
  | InterfaceDeclaration "string option" "heritage_clause list option" "ts_node list"
  | OtherNode "ts_node list"

record git_commit =
  g_hash :: string
  g_author :: string
  g_email :: string
  g_date :: string
  g_message :: string
  g_daysAgo :: int

record git_metrics =
  commitCount :: nat
  lastCommit :: "git_commit option"
  isGitTracked :: bool

text \<open>
  What a run reads from outside: the working directory, the file system, the parser of the
  TypeScript compiler, the successive values of
  \<open>Math.random().toString(36).substring(2, 9)\<close>, the answers of git (\<open>getGitMetrics\<close> runs
  git and answers with zero commits when it fails), the \<open>name\<close> and \<open>description\<close> of a
  manifest text (none when \<open>JSON.parse\<close> fails, empty for a missing entry) and the clock.
\<close>

record env =
  cwd :: string
  fs_root :: string
  fs_tree :: fsnode
  createSourceFile :: "string \<Rightarrow> string \<Rightarrow> ts_node"
  random36 :: "nat \<Rightarrow> string"
  getGitMetrics :: "string \<Rightarrow> string \<Rightarrow> git_metrics"
  parseManifest :: "string \<Rightarrow> (string \<times> string) option"
  now :: string

fun lookup_node :: "fsnode \<Rightarrow> string list \<Rightarrow> fsnode option"
  and lookup_entries :: "(string \<times> fsnode) list \<Rightarrow> string \<Rightarrow> string list \<Rightarrow> fsnode option" where
  "lookup_node n [] = Some n"
| "lookup_node (Directory (Some entries)) (seg # segs) = lookup_entries entries seg segs"
| "lookup_node (Directory None) (seg # segs) = None"
| "lookup_node (RegFile t) (seg # segs) = None"
| "lookup_node Special (seg # segs) = None"
| "lookup_entries [] seg segs = None"
| "lookup_entries ((name, n) # entries) seg segs =
     (if name = seg then lookup_node n segs else lookup_entries entries seg segs)"

definition fs_stat :: "env \<Rightarrow> string \<Rightarrow> fsnode option" where
  "fs_stat env p =
     (let r = resolved_segments (cwd env) (fs_root env);
          s = resolved_segments (cwd env) p
      in if take (length r) s = r then lookup_node (fs_tree env) (drop (length r) s) else None)"

definition existsSync :: "env \<Rightarrow> string \<Rightarrow> bool" where
  "existsSync env p = (fs_stat env p \<noteq> None)"

definition readFileSync :: "env \<Rightarrow> string \<Rightarrow> js_error + string" where
  "readFileSync env p =
     (case fs_stat env p of
        Some (RegFile (Some content)) \<Rightarrow> Inr content
      | _ \<Rightarrow> Inl (FsError p))"

fun isDirectory :: "fsnode \<Rightarrow> bool" where
  "isDirectory (Directory entries) = True"
| "isDirectory _ = False"

fun isFile :: "fsnode \<Rightarrow> bool" where
  "isFile (RegFile t) = True"
| "isFile _ = False"

section \<open>File discovery\<close>

definition source_extensions :: "string list" where
  "source_extensions = [''.js'', ''.jsx'', ''.ts'', ''.tsx'', ''.mjs'']"

text \<open>
  \<open>walk(currentDir)\<close> reads the directory at \<open>currentDir\<close>, here the node found there, and
  pushes onto \<open>files\<close>. An error of \<open>fs.readdirSync\<close> is not caught.
\<close>

fun walk :: "env \<Rightarrow> string \<Rightarrow> string list \<Rightarrow> string list \<Rightarrow> string \<Rightarrow> fsnode \<Rightarrow> string list
      \<Rightarrow> js_error + string list"
  and walk_entries :: "env \<Rightarrow> string \<Rightarrow> string list \<Rightarrow> string list \<Rightarrow> string
      \<Rightarrow> (string \<times> fsnode) list \<Rightarrow> string list \<Rightarrow> js_error + string list" where
  "walk env dir includes excludes currentDir (Directory (Some entries)) files =
     walk_entries env dir includes excludes currentDir entries files"
| "walk env dir includes excludes currentDir (Directory None) files = Inl (FsError currentDir)"
| "walk env dir includes excludes currentDir (RegFile t) files = Inl (FsError currentDir)"
| "walk env dir includes excludes currentDir Special files = Inl (FsError currentDir)"
| "walk_entries env dir includes excludes currentDir [] files = Inr files"
| "walk_entries env dir includes excludes currentDir ((name, node) # entries) files =
     (let fullPath = path_join currentDir name;
          relativePath = path_relative (cwd env) dir fullPath
      in if \<exists>pattern\<in>set excludes. includes_str relativePath pattern then
           walk_entries env dir includes excludes currentDir entries files
         else if isDirectory node then
           (case walk env dir includes excludes fullPath node files of
              Inl e \<Rightarrow> Inl e
            | Inr files' \<Rightarrow> walk_entries env dir includes excludes currentDir entries files')
         else if isFile node then
           (let ext = path_extname name
            in if ext \<in> set source_extensions then
                 (if length includes = 0 \<or> (\<exists>pattern\<in>set includes. startsWith relativePath pattern)
                  then walk_entries env dir includes excludes currentDir entries (files @ [fullPath])
                  else walk_entries env dir includes excludes currentDir entries files)
               else walk_entries env dir includes excludes currentDir entries files)
         else walk_entries env dir includes excludes currentDir entries files)"

definition findSourceFiles :: "env \<Rightarrow> string \<Rightarrow> string list \<Rightarrow> string list \<Rightarrow> js_error + string list" where
  "findSourceFiles env dir includes excludes =
     (case fs_stat env dir of
        None \<Rightarrow> Inl (FsError dir)
      | Some node \<Rightarrow> walk env dir includes excludes dir node [])"


section \<open>Structural extraction with the TypeScript compiler\<close>

record method_info =
  method_name :: string
  visibility :: string
  method_type :: string

record class_info =
  ci_name :: string
  ci_extends :: "string option"
  ci_implements :: "string list"
  ci_methods :: "method_info list"

record iface_info =
  if_name :: string
  if_extends :: "string list"

record ts_result =
  r_classes :: "class_info list"
  r_interfaces :: "iface_info list"

text \<open>
  The loop over the heritage clauses of a class; \<open>clause.types[0].expression\<close> raises a
  TypeError when an \<open>extends\<close> clause has no type.
\<close>

fun class_heritage :: "heritage_clause list \<Rightarrow> class_info \<Rightarrow> js_error + class_info" where
  "class_heritage [] classInfo = Inr classInfo"
| "class_heritage ((ExtendsKeyword, types) # clauses) classInfo =
     (case types of
        [] \<Rightarrow> Inl (TypeError ''Cannot read properties of undefined'')
      | t # _ \<Rightarrow> class_heritage clauses (classInfo\<lparr>ci_extends := Some t\<rparr>))"
| "class_heritage ((ImplementsKeyword, types) # clauses) classInfo =
     class_heritage clauses (classInfo\<lparr>ci_implements := types\<rparr>)"

fun iface_heritage :: "heritage_clause list \<Rightarrow> iface_info \<Rightarrow> iface_info" where
  "iface_heritage [] ifaceInfo = ifaceInfo"
| "iface_heritage ((ExtendsKeyword, types) # clauses) ifaceInfo =
     iface_heritage clauses (ifaceInfo\<lparr>if_extends := types\<rparr>)"
| "iface_heritage ((ImplementsKeyword, types) # clauses) ifaceInfo =
     iface_heritage clauses ifaceInfo"

fun class_methods :: "ts_member list \<Rightarrow> method_info list" where
  "class_methods [] = []"
| "class_methods (MethodDeclaration (Some n) # members) =
     \<lparr>method_name = n, visibility = ''public'', method_type = ''method''\<rparr> # class_methods members"
| "class_methods (_ # members) = class_methods members"

definition clauses_of :: "heritage_clause list option \<Rightarrow> heritage_clause list" where
  \<comment> \<open>\<open>if (node.heritageClauses)\<close>: no clause when the property is undefined\<close>
  "clauses_of heritageClauses = (case heritageClauses of None \<Rightarrow> [] | Some cs \<Rightarrow> cs)"

fun visit :: "bool \<Rightarrow> ts_node \<Rightarrow> ts_result \<Rightarrow> js_error + ts_result"
  and visit_children :: "bool \<Rightarrow> ts_node list \<Rightarrow> ts_result \<Rightarrow> js_error + ts_result" where
  "visit isTypeScript (ClassDeclaration name heritageClauses members children) result =
     (case name of
        None \<Rightarrow> visit_children isTypeScript children result
      | Some className \<Rightarrow>
          (case class_heritage (clauses_of heritageClauses)
                  \<lparr>ci_name = className, ci_extends = None, ci_implements = [], ci_methods = []\<rparr> of
             Inl e \<Rightarrow> Inl e
           | Inr classInfo \<Rightarrow>
               visit_children isTypeScript children
                 (result\<lparr>r_classes := r_classes result @
                    [classInfo\<lparr>ci_methods := class_methods members\<rparr>]\<rparr>)))"
| "visit isTypeScript (InterfaceDeclaration name heritageClauses children) result =
     (case name of
        None \<Rightarrow> visit_children isTypeScript children result
      | Some interfaceName \<Rightarrow>
          if isTypeScript then
            visit_children isTypeScript children
              (result\<lparr>r_interfaces := r_interfaces result @
                 [iface_heritage (clauses_of heritageClauses)
                    \<lparr>if_name = interfaceName, if_extends = []\<rparr>]\<rparr>)
          else visit_children isTypeScript children result)"
| "visit isTypeScript (OtherNode children) result = visit_children isTypeScript children result"
| "visit_children isTypeScript [] result = Inr result"
| "visit_children isTypeScript (child # children) result =
     (case visit isTypeScript child result of
        Inl e \<Rightarrow> Inl e
      | Inr result' \<Rightarrow> visit_children isTypeScript children result')"

definition parseWithTypeScript :: "env \<Rightarrow> string \<Rightarrow> string \<Rightarrow> js_error + ts_result" where
  "parseWithTypeScript env filePath content =
     (let ext = path_extname filePath;
          isTypeScript = (ext \<in> set [''.ts'', ''.tsx'']);
          sourceFile = createSourceFile env filePath content
      in visit isTypeScript sourceFile \<lparr>r_classes = [], r_interfaces = []\<rparr>)"

section \<open>The analysis of one file\<close>

record complexity_metrics =
  cyclomaticComplexity :: nat
  cognitiveComplexity :: nat
  nestingDepth :: nat
  linesOfCode :: nat
  cm_methodCount :: nat
  threatLevel :: string
  threatColor :: string
  label :: string
  suggestions :: "string list"

record coverage_metrics =
  hasCoverage :: bool
  overallCoverage :: nat

record size_metrics =
  lines :: nat
  complexity :: nat
  methodCount :: nat
  coverage :: nat

record test_metrics =
  t_exists :: bool
  t_coverage :: nat

text \<open>
  A record of the \<open>classes\<close> array. The records that \<open>analyzeFile\<close> returns have no
  \<open>isExternal\<close> property (false here); the stub records have no \<open>gitMetrics\<close> and no
  \<open>testMetrics\<close>.
\<close>

record class_record =
  c_id :: string
  c_name :: string
  c_type :: string
  c_subtype :: string
  c_package :: string
  c_filePath :: string
  c_methods :: "method_info list"
  c_fields :: "string list"
  c_dependencies :: "string list"
  c_extends :: "string list"
  c_implements :: "string list"
  c_complexity :: nat
  c_complexityMetrics :: complexity_metrics
  c_coverageMetrics :: coverage_metrics
  c_metrics :: size_metrics
  c_gitMetrics :: "git_metrics option"
  c_testMetrics :: "test_metrics option"
  c_isExternal :: bool

definition single_quote :: char where
  "single_quote = CHR 0x27"

definition method_name_of :: "string \<Rightarrow> nat \<Rightarrow> string" where
  \<comment> \<open>\<open>m.trim().split(/[\s(]/)[1] || `method_${i}`\<close>\<close>
  "method_name_of m i =
     (case split_where (\<lambda>c. is_space_char c \<or> c = CHR ''('') (js_trim m) of
        _ # w # _ \<Rightarrow> if truthy w then w else ''method_'' @ decimal i
      | _ \<Rightarrow> ''method_'' @ decimal i)"

definition fallback_methods :: "string \<Rightarrow> method_info list" where
  "fallback_methods content =
     (let methodMatches = match_all methodRegex None content
      in map (\<lambda>(m, i). \<lparr>method_name = method_name_of m i, visibility = ''public'',
                         method_type = ''method''\<rparr>)
           (zip methodMatches [0..<length methodMatches]))"

definition threat_of :: "nat \<Rightarrow> string" where
  "threat_of c =
     (if c > 15 then ''CRITICAL'' else if c > 10 then ''HIGH''
      else if c > 5 then ''MODERATE'' else ''LOW'')"

definition color_of :: "nat \<Rightarrow> string" where
  "color_of c =
     (if c > 15 then ''red'' else if c > 10 then ''orange''
      else if c > 5 then ''yellow'' else ''green'')"

definition test_path :: "string \<Rightarrow> string" where
  \<comment> \<open>\<open>filePath.replace(/\.(jsx?|tsx?)$/, '.test$1')\<close>\<close>
  "test_path filePath = replace_first testRegex filePath (\<lambda>m. ''.test'' @ group1 m)"

text \<open>
  \<open>analyzeFile\<close> raises where \<open>fs.readFileSync\<close> or \<open>parseWithTypeScript\<close> raises. The third
  argument counts the random values drawn so far; the identifier of the record is the next
  one.
\<close>

definition analyzeFile :: "env \<Rightarrow> string \<Rightarrow> string \<Rightarrow> nat \<Rightarrow> js_error + (class_record \<times> nat)" where
  "analyzeFile env filePath projectRoot n =
     (case readFileSync env filePath of
        Inl e \<Rightarrow> Inl e
      | Inr content \<Rightarrow>
          let relativePath = path_relative (cwd env) projectRoot filePath;
              fileName = path_basename filePath (path_extname filePath);
              packagePath = path_dirname relativePath
          in case parseWithTypeScript env filePath content of
               Inl e \<Rightarrow> Inl e
             | Inr tsResults \<Rightarrow>
                 let dependencies = import_loop None content [];
                     isReactComponent =
                       (re_test exportRegex content \<and>
                        (includes_str content ''import React'' \<or>
                         includes_str content (''from '' @ [single_quote] @ ''react'' @ [single_quote])));
                     (name, extendsClass, implementsInterfaces, methods) =
                       (case r_classes tsResults of
                          mainClass # _ \<Rightarrow>
                            (ci_name mainClass, ci_extends mainClass, ci_implements mainClass,
                             ci_methods mainClass)
                        | [] \<Rightarrow>
                            ((case re_first_group exportRegex content of
                                Some componentName \<Rightarrow> componentName | None \<Rightarrow> fileName),
                             re_first_group extendsRegex content,
                             (case re_first_group implementsRegex content of
                                Some names \<Rightarrow> map js_trim (split_on CHR '','' names)
                              | None \<Rightarrow> []),
                             fallback_methods content));
                     cyclomatic = length (match_all complexityRegex None content);
                     gitMetrics = getGitMetrics env filePath projectRoot;
                     lineCount = length (split_on CHR 0x0A content)
                 in Inr
                   (\<lparr>c_id = ''component_'' @ random36 env n,
                     c_name = name,
                     c_type = ''class'',
                     c_subtype = (if isReactComponent then ''react_component'' else ''utility''),
                     c_package = (if truthy packagePath then packagePath else ''root''),
                     c_filePath = relativePath,
                     c_methods = methods,
                     c_fields = [],
                     c_dependencies = dependencies,
                     c_extends = (case extendsClass of
                                    None \<Rightarrow> []
                                  | Some parent \<Rightarrow> if truthy parent then [parent] else []),
                     c_implements = implementsInterfaces,
                     c_complexity = cyclomatic,
                     c_complexityMetrics =
                       \<lparr>cyclomaticComplexity = cyclomatic,
                        cognitiveComplexity = cyclomatic,
                        nestingDepth = 0,
                        linesOfCode = lineCount,
                        cm_methodCount = length methods,
                        threatLevel = threat_of cyclomatic,
                        threatColor = color_of cyclomatic,
                        label = threat_of cyclomatic,
                        suggestions = []\<rparr>,
                     c_coverageMetrics = \<lparr>hasCoverage = False, overallCoverage = 0\<rparr>,
                     c_metrics = \<lparr>lines = lineCount, complexity = cyclomatic,
                                  methodCount = length methods, coverage = 0\<rparr>,
                     c_gitMetrics = Some gitMetrics,
                     c_testMetrics = Some \<lparr>t_exists = existsSync env (test_path filePath),
                                           t_coverage = 0\<rparr>,
                     c_isExternal = False\<rparr>,
                    Suc n))"


section \<open>Aggregation\<close>

record package_record =
  p_id :: string
  p_name :: string
  p_path :: string
  p_classes :: "string list"

text \<open>
  The \<open>packages\<close> map keeps its keys in insertion order: an association list, where
  \<open>packages.has\<close> is \<^const>\<open>map_of\<close>, \<open>packages.set\<close> is \<^const>\<open>AList.update\<close> and a push onto the
  \<open>classes\<close> of \<open>packages.get(k)\<close> is \<^const>\<open>AList.map_entry\<close>.
\<close>

type_synonym package_map = "(string \<times> package_record) list"

definition package_name :: "string \<Rightarrow> string" where
  \<comment> \<open>\<open>pkgPath.split('/').pop() || 'root'\<close>\<close>
  "package_name pkgPath =
     (let seg = last (split_on CHR ''/'' pkgPath) in if truthy seg then seg else ''root'')"

definition push_class :: "string \<Rightarrow> package_record \<Rightarrow> package_record" where
  "push_class cid p = p\<lparr>p_classes := p_classes p @ [cid]\<rparr>"

text \<open>
  The loop of \<open>generateUML\<close> over the discovered files: a file whose analysis raises is
  skipped with a warning.
\<close>

fun analyze_files :: "env \<Rightarrow> string \<Rightarrow> string list \<Rightarrow> class_record list \<Rightarrow> package_map \<Rightarrow> nat
      \<Rightarrow> class_record list \<times> package_map \<times> nat" where
  "analyze_files env projectPath [] classes packages n = (classes, packages, n)"
| "analyze_files env projectPath (filePath # files) classes packages n =
     (case analyzeFile env filePath projectPath n of
        Inl error \<Rightarrow> analyze_files env projectPath files classes packages n
      | Inr (classData, n1) \<Rightarrow>
          let classes1 = classes @ [classData];
              pkgPath = c_package classData;
              (packages1, n2) =
                (if map_of packages pkgPath = None then
                   (AList.update pkgPath
                      \<lparr>p_id = ''package_'' @ random36 env n1,
                       p_name = package_name pkgPath,
                       p_path = pkgPath,
                       p_classes = []\<rparr> packages,
                    Suc n1)
                 else (packages, n1));
              packages2 = AList.map_entry pkgPath (push_class (c_id classData)) packages1
          in analyze_files env projectPath files classes1 packages2 n2)"

text \<open>The set \<open>externalClasses\<close> keeps its elements in insertion order.\<close>

definition set_add :: "string list \<Rightarrow> string \<Rightarrow> string list" where
  "set_add xs x = (if x \<in> set xs then xs else xs @ [x])"

fun add_undefined :: "string set \<Rightarrow> string list \<Rightarrow> string list \<Rightarrow> string list" where
  "add_undefined definedClasses [] externalClasses = externalClasses"
| "add_undefined definedClasses (className # names) externalClasses =
     add_undefined definedClasses names
       (if className \<notin> definedClasses then set_add externalClasses className
        else externalClasses)"

fun collect_external :: "string set \<Rightarrow> class_record list \<Rightarrow> string list \<Rightarrow> string list" where
  "collect_external definedClasses [] externalClasses = externalClasses"
| "collect_external definedClasses (classData # classes) externalClasses =
     collect_external definedClasses classes
       (add_undefined definedClasses (c_implements classData)
          (add_undefined definedClasses (c_extends classData) externalClasses))"

definition stub_id :: "string \<Rightarrow> string" where
  \<comment> \<open>\<open>`external_${className.replace(/\./g, '_').toLowerCase()}`\<close>\<close>
  "stub_id className =
     ''external_'' @ toLowerCase (map (\<lambda>c. if c = CHR ''.'' then CHR ''_'' else c) className)"

definition stubClass :: "string \<Rightarrow> class_record" where
  "stubClass className =
     \<lparr>c_id = stub_id className,
      c_name = className,
      c_type = ''class'',
      c_subtype = ''external'',
      c_package = ''external'',
      c_filePath = ''external/'' @ className,
      c_methods = [],
      c_fields = [],
      c_dependencies = [],
      c_extends = [],
      c_implements = [],
      c_complexity = 0,
      c_complexityMetrics =
        \<lparr>cyclomaticComplexity = 0,
         cognitiveComplexity = 0,
         nestingDepth = 0,
         linesOfCode = 75,
         cm_methodCount = 0,
         threatLevel = ''EXTERNAL'',
         threatColor = ''gray'',
         label = ''External Library'',
         suggestions = []\<rparr>,
      c_coverageMetrics = \<lparr>hasCoverage = False, overallCoverage = 0\<rparr>,
      c_metrics = \<lparr>lines = 75, complexity = 0, methodCount = 0, coverage = 0\<rparr>,
      c_gitMetrics = None,
      c_testMetrics = None,
      c_isExternal = True\<rparr>"

fun add_stubs :: "string list \<Rightarrow> class_record list \<Rightarrow> package_map
      \<Rightarrow> class_record list \<times> package_map" where
  "add_stubs [] classes packages = (classes, packages)"
| "add_stubs (className # names) classes packages =
     add_stubs names (classes @ [stubClass className])
       (AList.map_entry ''external'' (push_class (c_id (stubClass className))) packages)"

section \<open>The snapshot\<close>

record project_info =
  pr_name :: string
  pr_description :: string
  pr_language :: string

record snapshot =
  s_version :: string
  s_generated :: string
  s_project :: project_info
  s_packages :: "package_record list"
  s_classes :: "class_record list"

definition project_metadata :: "env \<Rightarrow> string \<Rightarrow> string \<Rightarrow> string \<times> string" where
  \<comment> \<open>the name and the description of the project, from \<open>package.json\<close> where it can be read\<close>
  "project_metadata env projectPath projectName =
     (let projectDescription = ''Codebase visualization'';
          packageJsonPath = path_join projectPath ''package.json''
      in if existsSync env packageJsonPath then
           (case readFileSync env packageJsonPath of
              Inl error \<Rightarrow> (projectName, projectDescription)
            | Inr text \<Rightarrow>
                (case parseManifest env text of
                   None \<Rightarrow> (projectName, projectDescription)
                 | Some (nm, descr) \<Rightarrow>
                     (if truthy nm then nm else projectName,
                      if truthy descr then descr else projectDescription)))
         else (projectName, projectDescription))"

text \<open>
  \<open>generateUML\<close>; the include and exclude patterns are the module's variables of the same
  names, set from the command line.
\<close>

definition generateUML :: "env \<Rightarrow> string list \<Rightarrow> string list \<Rightarrow> string \<Rightarrow> string
      \<Rightarrow> js_error + snapshot" where
  "generateUML env includePatterns excludePatterns projectPath projectName =
     (case findSourceFiles env projectPath includePatterns excludePatterns of
        Inl e \<Rightarrow> Inl e
      | Inr files \<Rightarrow>
          let (classes, packages, n) = analyze_files env projectPath files [] [] 0;
              definedClasses = set (map c_name classes);
              externalClasses = collect_external definedClasses classes [];
              (classes1, packages1) =
                (if length externalClasses > 0 then
                   let externalPkgPath = ''external'';
                       packages' =
                         (if map_of packages externalPkgPath = None then
                            AList.update externalPkgPath
                              \<lparr>p_id = ''package_external'',
                               p_name = ''External Libraries'',
                               p_path = externalPkgPath,
                               p_classes = []\<rparr> packages
                          else packages)
                   in add_stubs externalClasses classes packages'
                 else (classes, packages));
              (projectName1, projectDescription) = project_metadata env projectPath projectName
          in Inr \<lparr>s_version = ''6.0'',
                  s_generated = now env,
                  s_project = \<lparr>pr_name = projectName1, pr_description = projectDescription,
                               pr_language = ''JavaScript''\<rparr>,
                  s_packages = map snd packages1,
                  s_classes = classes1\<rparr>)"

section \<open>The interactive analysis\<close>

record options =
  includePatterns :: "string list"
  excludePatterns :: "string list"
  outputFile :: string

text \<open>
  The loop of \<open>runAnalysis\<close> in the terminal interface: it counts the analysed files for
  its progress line and ignores a file whose analysis raises.
\<close>

fun tui_files :: "env \<Rightarrow> string \<Rightarrow> string list \<Rightarrow> class_record list \<Rightarrow> package_map \<Rightarrow> nat \<Rightarrow> nat
      \<Rightarrow> class_record list \<times> package_map \<times> nat \<times> nat" where
  "tui_files env projectPath [] classes packages analyzed n = (classes, packages, analyzed, n)"
| "tui_files env projectPath (filePath # files) classes packages analyzed n =
     (case analyzeFile env filePath projectPath n of
        Inl error \<Rightarrow> tui_files env projectPath files classes packages analyzed n
      | Inr (classData, n1) \<Rightarrow>
          let classes1 = classes @ [classData];
              pkgPath = c_package classData;
              (packages1, n2) =
                (if map_of packages pkgPath = None then
                   (AList.update pkgPath
                      \<lparr>p_id = ''package_'' @ random36 env n1,
                       p_name = package_name pkgPath,
                       p_path = pkgPath,
                       p_classes = []\<rparr> packages,
                    Suc n1)
                 else (packages, n1));
              packages2 = AList.map_entry pkgPath (push_class (c_id classData)) packages1
          in tui_files env projectPath files classes1 packages2 (Suc analyzed) n2)"

text \<open>\<open>runAnalysis\<close> answers \<open>null\<close> (here \<open>None\<close>) when no source file is found.\<close>

definition runAnalysis :: "env \<Rightarrow> string \<Rightarrow> options \<Rightarrow> js_error + snapshot option" where
  "runAnalysis env projectPath opts =
     (case findSourceFiles env projectPath (includePatterns opts) (excludePatterns opts) of
        Inl e \<Rightarrow> Inl e
      | Inr files \<Rightarrow>
          if length files = 0 then Inr None
          else
            let (classes, packages, analyzed, n) = tui_files env projectPath files [] [] 0 0;
                (projectName, projectDescription) =
                  project_metadata env projectPath (path_basename projectPath [])
            in Inr (Some \<lparr>s_version = ''6.0'',
                          s_generated = now env,
                          s_project = \<lparr>pr_name = projectName, pr_description = projectDescription,
                                       pr_language = ''JavaScript''\<rparr>,
                          s_packages = map snd packages,
                          s_classes = classes\<rparr>))"


section \<open>The keyword count, as the specification words it\<close>

text \<open>
  A keyword occurs as a whole word at position \<open>i\<close> of a text when the text reads the keyword
  from \<open>i\<close> on and neither the character before nor the character after the occurrence is a
  word character. The count of the specification adds up the occurrences of the seven
  keywords.
\<close>

definition char_before :: "string \<Rightarrow> nat \<Rightarrow> char option" where
  "char_before text i = (if i = 0 then None else Some (text ! (i - 1)))"

definition char_at :: "string \<Rightarrow> nat \<Rightarrow> char option" where
  "char_at text i = (if i < length text then Some (text ! i) else None)"

definition whole_word_at :: "string \<Rightarrow> string \<Rightarrow> nat \<Rightarrow> bool" where
  "whole_word_at text k i =
     (take (length k) (drop i text) = k \<and> \<not> word_opt (char_before text i)
      \<and> \<not> word_opt (char_at text (i + length k)))"

definition occurrences :: "string \<Rightarrow> string \<Rightarrow> nat list" where
  "occurrences text k = filter (whole_word_at text k) [0..<length text]"

definition keyword_occurrences :: "string \<Rightarrow> nat" where
  "keyword_occurrences text = (\<Sum>k\<leftarrow>trigger_keywords. length (occurrences text k))"

text \<open>The same at the head of a suffix of the text, given the character before it.\<close>

definition occ_here :: "char option \<Rightarrow> string \<Rightarrow> string \<Rightarrow> bool" where
  "occ_here p s k = (take (length k) s = k \<and> \<not> word_opt p \<and> \<not> word_opt (hd_opt (drop (length k) s)))"

definition kw_here :: "char option \<Rightarrow> string \<Rightarrow> bool" where
  "kw_here p s = (\<exists>k\<in>set trigger_keywords. occ_here p s k)"

fun kw_count :: "char option \<Rightarrow> string \<Rightarrow> nat" where
  "kw_count p [] = 0"
| "kw_count p (x # xs) = (if kw_here p (x # xs) then 1 else 0) + kw_count (Some x) xs"


section \<open>Properties of the keyword count\<close>

lemma kw_word: "k \<in> set trigger_keywords \<Longrightarrow> k \<noteq> [] \<and> (\<forall>c\<in>set k. is_word_char c)"
  by (auto simp: trigger_keywords_def is_word_char_def)

lemma ms_alts_Lit: "ms (alts (map Lit ks)) st = concat (map (\<lambda>k. ms (Lit k) st) ks)"
proof (induction ks)
  case Nil
  obtain p s c where "st = (p, s, c)" by (cases st)
  then show ?case by (simp split: list.splits)
next
  case (Cons k ks)
  then show ?case by (cases ks) simp_all
qed

lemma kw_alt_step:
  assumes "k \<in> set trigger_keywords"
  shows "concat (map (ms WordB) (ms (Grp (Lit k)) (p, s, None))) =
         (if take (length k) s = k \<and> \<not> word_opt (hd_opt (drop (length k) s))
          then [(Some (last k), drop (length k) s, Some k)] else [])"
proof -
  from kw_word[OF assms] have k: "k \<noteq> []" "is_word_char (last k)" by auto
  have len: "take (length k) s = k \<Longrightarrow> length s - (length s - length k) = length k"
    by (metis diff_diff_cancel length_take min.cobounded2 min_def nat_le_linear take_all)
  show ?thesis using k len by (auto simp: last_opt_def word_opt_def)
qed

lemma kw_head_word:
  assumes "k \<in> set trigger_keywords" "take (length k) s = k"
  shows "word_opt (hd_opt s)"
proof -
  from kw_word[OF assms(1)] obtain x xs where k: "k = x # xs" "is_word_char x"
    by (cases k) auto
  with assms(2) show ?thesis by (cases s) (auto simp: hd_opt_def word_opt_def)
qed

lemma concat_concat_map: "concat (concat (map f xs)) = concat (map (\<lambda>x. concat (f x)) xs)"
  by (induction xs) auto

lemma ms_Grp_alts:
  "ms (Grp (alts (map Lit ks))) (p, s, c) = concat (map (\<lambda>k. ms (Grp (Lit k)) (p, s, c)) ks)"
  by (simp add: ms_alts_Lit map_concat comp_def del: ms.simps(1))

lemma ms_kw_closed:
  "ms complexityRegex (p, s, None) =
     concat (map (\<lambda>k. if occ_here p s k then [(Some (last k), drop (length k) s, Some k)] else [])
       trigger_keywords)"
proof -
  let ?F = "\<lambda>k. concat (map (ms WordB) (ms (Grp (Lit k)) (p, s, None)))"
  have 1: "ms complexityRegex (p, s, None) =
        (if word_opt p \<noteq> word_opt (hd_opt s) then concat (map ?F trigger_keywords) else [])"
    unfolding complexityRegex_def
    by (simp add: ms_Grp_alts map_concat concat_concat_map comp_def del: ms.simps(1,6))
  have 2: "(if word_opt p \<noteq> word_opt (hd_opt s) then ?F k else []) =
        (if occ_here p s k then [(Some (last k), drop (length k) s, Some k)] else [])"
    if "k \<in> set trigger_keywords" for k
    using kw_head_word[OF that] by (auto simp: kw_alt_step[OF that] occ_here_def simp del: ms.simps)
  have "(if word_opt p \<noteq> word_opt (hd_opt s) then concat (map ?F trigger_keywords) else [])
      = concat (map (\<lambda>k. if word_opt p \<noteq> word_opt (hd_opt s) then ?F k else []) trigger_keywords)"
    by simp
  also have "\<dots> = concat (map (\<lambda>k. if occ_here p s k then [(Some (last k), drop (length k) s, Some k)] else [])
       trigger_keywords)"
    by (intro arg_cong[where f=concat] map_cong refl 2)
  finally show ?thesis using 1 by simp
qed


lemma concat_if_singleton:
  "concat (map (\<lambda>k. if P k then [f k] else []) ks) = map f (filter P ks)"
  by (induction ks) auto

lemma hd_opt_drop: "hd_opt (drop j s) = char_at s j"
proof (cases "j < length s")
  case True
  then have "drop j s = s ! j # drop (Suc j) s" by (simp add: Cons_nth_drop_Suc)
  then show ?thesis using True by (simp add: hd_opt_def char_at_def)
next
  case False
  then show ?thesis by (simp add: hd_opt_def char_at_def)
qed

lemma occ_here_unique_aux:
  assumes k: "k \<in> set trigger_keywords" and k': "k' \<in> set trigger_keywords"
    and o: "occ_here p s k" and o': "occ_here p s k'" and le: "length k \<le> length k'"
  shows "k = k'"
proof (rule ccontr)
  assume ne: "k \<noteq> k'"
  from o o' have t: "take (length k) s = k" "take (length k') s = k'" by (auto simp: occ_here_def)
  have lt: "length k < length k'"
  proof (rule ccontr)
    assume "\<not> length k < length k'"
    with le have "length k = length k'" by simp
    with t ne show False by simp
  qed
  have "length (take (length k') s) = length k'" using t(2) by simp
  then have ls: "length k' \<le> length s" by simp
  have "s ! length k = k' ! length k" using t(2) lt by (metis nth_take)
  moreover have "k' ! length k \<in> set k'" using lt by simp
  ultimately have "is_word_char (s ! length k)" using kw_word[OF k'] by auto
  moreover have "hd_opt (drop (length k) s) = Some (s ! length k)"
    using lt ls by (simp add: hd_opt_drop char_at_def)
  ultimately show False using o by (simp add: occ_here_def word_opt_def)
qed

lemma occ_here_unique:
  "k \<in> set trigger_keywords \<Longrightarrow> k' \<in> set trigger_keywords \<Longrightarrow> occ_here p s k \<Longrightarrow> occ_here p s k'
   \<Longrightarrow> k = k'"
  using occ_here_unique_aux[of k k' p s] occ_here_unique_aux[of k' k p s]
  by (cases "length k \<le> length k'") auto

lemma kw_count_skip:
  "word_opt p \<Longrightarrow> \<forall>c\<in>set w. is_word_char c \<Longrightarrow> kw_count p (w @ r) = kw_count (last_opt p w) r"
proof (induction w arbitrary: p)
  case Nil
  then show ?case by (simp add: last_opt_def)
next
  case (Cons x w)
  have "\<not> kw_here p (x # w @ r)" using Cons.prems(1) by (simp add: kw_here_def occ_here_def)
  moreover have "kw_count (Some x) (w @ r) = kw_count (last_opt (Some x) w) r"
    using Cons by (simp add: word_opt_def)
  ultimately show ?case by (simp add: last_opt_def)
qed

lemma kw_count_at_occurrence:
  assumes k: "k \<in> set trigger_keywords" and o: "occ_here p s k"
  shows "kw_count p s = Suc (kw_count (Some (last k)) (drop (length k) s))"
proof -
  from kw_word[OF k] obtain x w where kx: "k = x # w" "is_word_char x" "\<forall>c\<in>set w. is_word_char c"
    by (cases k) auto
  define r where "r = drop (length k) s"
  from o have t: "take (length k) s = k" by (simp add: occ_here_def)
  then have s: "s = x # (w @ r)" unfolding r_def by (metis append_take_drop_id kx(1) append_Cons)
  have here: "kw_here p (x # (w @ r))" using k o s by (auto simp: kw_here_def)
  have "kw_count p (x # (w @ r)) = Suc (kw_count (Some x) (w @ r))" using here by simp
  also have "kw_count (Some x) (w @ r) = kw_count (last_opt (Some x) w) r"
    using kx by (intro kw_count_skip) (simp_all add: word_opt_def)
  also have "last_opt (Some x) w = Some (last k)" by (simp add: kx last_opt_def)
  finally have "kw_count p (x # (w @ r)) = Suc (kw_count (Some (last k)) r)" .
  then have "kw_count p s = Suc (kw_count (Some (last k)) r)" by (subst s)
  then show ?thesis unfolding r_def .
qed

lemma ms_kw_Nil: "ms complexityRegex (p, s, None) = [] \<longleftrightarrow> \<not> kw_here p s"
  by (auto simp: ms_kw_closed concat_if_singleton kw_here_def filter_empty_conv)

lemma ms_kw_Cons:
  assumes "ms complexityRegex (p, s, None) = st # sts"
  shows "\<exists>k\<in>set trigger_keywords. occ_here p s k \<and> st = (Some (last k), drop (length k) s, Some k)"
proof -
  have "st \<in> set (ms complexityRegex (p, s, None))" using assms by simp
  then show ?thesis by (auto simp: ms_kw_closed concat_if_singleton)
qed

lemma search_kw:
  "(case search complexityRegex p s of
      None \<Rightarrow> kw_count p s = 0
    | Some m \<Rightarrow> m_text m \<noteq> [] \<and> kw_count p s = Suc (kw_count (m_prev m) (m_rest m)))"
proof (induction s arbitrary: p)
  case Nil
  have "\<not> kw_here p []"
    using kw_word by (auto simp: kw_here_def occ_here_def)
  then have "ms complexityRegex (p, [], None) = []" by (simp add: ms_kw_Nil)
  then show ?case by (simp add: search.simps[of _ p "[]"])
next
  case (Cons x xs)
  show ?case
  proof (cases "ms complexityRegex (p, x # xs, None)")
    case Nil
    then have nk: "\<not> kw_here p (x # xs)" by (simp add: ms_kw_Nil)
    show ?thesis using Cons.IH[of "Some x"] Nil nk
      by (auto simp: search.simps[of _ p "x # xs"] split: option.splits)
  next
    case (Cons st sts)
    from ms_kw_Cons[OF this] obtain k where k: "k \<in> set trigger_keywords" "occ_here p (x # xs) k"
      "st = (Some (last k), drop (length k) (x # xs), Some k)" by auto
    from k(2) have t: "take (length k) (x # xs) = k" by (simp add: occ_here_def)
    have len: "length (x # xs) - length (drop (length k) (x # xs)) = length k"
      using t by (metis diff_diff_cancel length_drop length_take min.cobounded2 min_def nat_le_linear take_all)
    have "search complexityRegex p (x # xs) =
        Some \<lparr>m_index = 0, m_text = k, m_group = Some k, m_prev = Some (last k),
              m_rest = drop (length k) (x # xs)\<rparr>"
      using Cons k(3) t len by (simp add: search.simps[of _ p "x # xs"] del: length_drop)
    then show ?thesis using kw_count_at_occurrence[OF k(1,2)] kw_word[OF k(1)] by simp
  qed
qed

lemma match_all_kw: "length (match_all complexityRegex p s) = kw_count p s"
proof (induction s arbitrary: p rule: length_induct)
  case (1 s)
  show ?case
  proof (cases "search complexityRegex p s")
    case None
    then show ?thesis using search_kw[of p s] by (simp add: match_all.simps[of _ p s])
  next
    case (Some m)
    with search_kw[of p s] have m: "m_text m \<noteq> []" "kw_count p s = Suc (kw_count (m_prev m) (m_rest m))"
      by auto
    from search_decomp[OF Some] have "length (drop (m_index m) s) = length (m_text m) + length (m_rest m)"
      by simp
    moreover have "length (drop (m_index m) s) \<le> length s" by simp
    ultimately have "length (m_rest m) < length s" using m(1) by (cases "m_text m") auto
    with 1 have "length (match_all complexityRegex (m_prev m) (m_rest m)) = kw_count (m_prev m) (m_rest m)"
      by blast
    then show ?thesis using Some m by (simp add: match_all.simps[of _ p s])
  qed
qed

lemma kw_count_positions:
  "kw_count p s =
     length (filter (\<lambda>i. kw_here (if i = 0 then p else Some (s ! (i - 1))) (drop i s)) [0..<length s])"
proof (induction s arbitrary: p)
  case Nil
  then show ?case by simp
next
  case (Cons x xs)
  have upt: "[0..<length (x # xs)] = 0 # map Suc [0..<length xs]"
    by (simp add: upt_conv_Cons map_Suc_upt del: upt_Suc)
  have "length (filter (\<lambda>i. kw_here (if i = 0 then p else Some ((x # xs) ! (i - 1))) (drop i (x # xs)))
           (map Suc [0..<length xs]))
      = length (filter (\<lambda>j. kw_here (if j = 0 then Some x else Some (xs ! (j - 1))) (drop j xs))
           [0..<length xs])"
    by (simp add: filter_map comp_def nth_Cons' cong: if_cong)
  then show ?case unfolding upt using Cons.IH[of "Some x"] by simp
qed

lemma sum_indicator_unique:
  "distinct ks \<Longrightarrow> (\<And>k k'. k \<in> set ks \<Longrightarrow> k' \<in> set ks \<Longrightarrow> Q k \<Longrightarrow> Q k' \<Longrightarrow> k = k')
   \<Longrightarrow> (\<Sum>k\<leftarrow>ks. if Q k then 1 else 0) = (if \<exists>k\<in>set ks. Q k then 1 else (0::nat))"
proof (induction ks)
  case Nil
  then show ?case by simp
next
  case (Cons k ks)
  have IH: "(\<Sum>k\<leftarrow>ks. if Q k then 1 else 0) = (if \<exists>k\<in>set ks. Q k then 1 else (0::nat))"
    using Cons by auto
  show ?case
  proof (cases "Q k")
    case True
    have "\<not> (\<exists>k'\<in>set ks. Q k')" using Cons.prems True by (metis distinct.simps(2) list.set_intros(1,2))
    then show ?thesis using True IH by simp
  next
    case False
    then show ?thesis using IH by simp
  qed
qed

lemma sum_filter_unique:
  assumes "distinct ks" "\<And>k k' i. k \<in> set ks \<Longrightarrow> k' \<in> set ks \<Longrightarrow> P k i \<Longrightarrow> P k' i \<Longrightarrow> k = k'"
  shows "(\<Sum>k\<leftarrow>ks. length (filter (P k) xs)) = length (filter (\<lambda>i. \<exists>k\<in>set ks. P k i) xs)"
proof (induction xs)
  case Nil
  then show ?case by simp
next
  case (Cons x xs)
  have "(\<Sum>k\<leftarrow>ks. length (filter (P k) (x # xs)))
      = (\<Sum>k\<leftarrow>ks. (if P k x then 1 else 0) + length (filter (P k) xs))"
    by (intro arg_cong[where f=sum_list] map_cong) auto
  also have "\<dots> = (\<Sum>k\<leftarrow>ks. if P k x then 1 else 0) + (\<Sum>k\<leftarrow>ks. length (filter (P k) xs))"
    by (simp add: sum_list_addf)
  also have "(\<Sum>k\<leftarrow>ks. if P k x then 1 else 0) = (if \<exists>k\<in>set ks. P k x then 1 else (0::nat))"
    using assms by (intro sum_indicator_unique) auto
  finally show ?case using Cons by simp
qed

lemma whole_word_occ_here:
  "whole_word_at text k i = occ_here (char_before text i) (drop i text) k"
  by (simp add: whole_word_at_def occ_here_def hd_opt_drop char_at_def add.commute)

lemma cyclomatic_eq_occurrences:
  "length (match_all complexityRegex None text) = keyword_occurrences text"
proof -
  have d: "distinct trigger_keywords" by (simp add: trigger_keywords_def)
  have "keyword_occurrences text
      = length (filter (\<lambda>i. \<exists>k\<in>set trigger_keywords. whole_word_at text k i) [0..<length text])"
    unfolding keyword_occurrences_def occurrences_def
    by (rule sum_filter_unique[OF d]) (auto simp: whole_word_occ_here dest: occ_here_unique)
  also have "\<dots> = kw_count None text"
    by (simp add: kw_count_positions whole_word_occ_here kw_here_def char_before_def)
  finally show ?thesis by (simp add: match_all_kw)
qed


section \<open>What \<open>analyzeFile\<close> returns\<close>

lemma analyzeFile_Inr:
  assumes "analyzeFile env filePath projectRoot n = Inr (classData, n')"
  shows "\<exists>content tsResults.
           readFileSync env filePath = Inr content \<and>
           parseWithTypeScript env filePath content = Inr tsResults \<and>
           n' = Suc n \<and>
           c_id classData = ''component_'' @ random36 env n \<and>
           c_isExternal classData = False \<and>
           c_dependencies classData = import_loop None content [] \<and>
           c_complexity classData = length (match_all complexityRegex None content) \<and>
           cyclomaticComplexity (c_complexityMetrics classData) =
             length (match_all complexityRegex None content) \<and>
           complexity (c_metrics classData) = length (match_all complexityRegex None content) \<and>
           c_package classData =
             (let packagePath = path_dirname (path_relative (cwd env) projectRoot filePath)
              in if truthy packagePath then packagePath else ''root'') \<and>
           c_testMetrics classData =
             Some \<lparr>t_exists = existsSync env (test_path filePath), t_coverage = 0\<rparr>"
  using assms
  by (auto simp: analyzeFile_def Let_def split: sum.splits prod.splits)

text \<open>
  C8. The cyclomatic complexity that \<open>analyzeFile\<close> reports for a file, in each of the three
  places of the record, is the number of whole-word occurrences of the keywords if, else,
  for, while, switch, case and catch in the raw text of the file. So it is 0 for a text
  without such an occurrence and 2 for a text with exactly one \<open>if\<close>, one \<open>for\<close> and no
  other keyword.
\<close>

theorem cyclomaticComplexity_counts_keywords:
  assumes "readFileSync env filePath = Inr content"
    and "analyzeFile env filePath projectRoot n = Inr (classData, n')"
  shows "cyclomaticComplexity (c_complexityMetrics classData) = keyword_occurrences content \<and>
         c_complexity classData = keyword_occurrences content \<and>
         complexity (c_metrics classData) = keyword_occurrences content \<and>
         ((\<forall>k\<in>set trigger_keywords. occurrences content k = []) \<longrightarrow>
            cyclomaticComplexity (c_complexityMetrics classData) = 0) \<and>
         (length (occurrences content ''if'') = 1 \<and> length (occurrences content ''for'') = 1 \<and>
          (\<forall>k\<in>set trigger_keywords. k \<noteq> ''if'' \<and> k \<noteq> ''for'' \<longrightarrow> occurrences content k = []) \<longrightarrow>
            cyclomaticComplexity (c_complexityMetrics classData) = 2)"
proof -
  from analyzeFile_Inr[OF assms(2)] assms(1)
  have eq: "cyclomaticComplexity (c_complexityMetrics classData) = keyword_occurrences content"
    "c_complexity classData = keyword_occurrences content"
    "complexity (c_metrics classData) = keyword_occurrences content"
    by (auto simp: cyclomatic_eq_occurrences)
  have zero: "keyword_occurrences content = 0"
    if "\<forall>k\<in>set trigger_keywords. occurrences content k = []"
    using that by (simp add: keyword_occurrences_def trigger_keywords_def)
  have two: "keyword_occurrences content = 2"
    if "length (occurrences content ''if'') = 1" "length (occurrences content ''for'') = 1"
      "\<forall>k\<in>set trigger_keywords. k \<noteq> ''if'' \<and> k \<noteq> ''for'' \<longrightarrow> occurrences content k = []"
    using that by (simp add: keyword_occurrences_def trigger_keywords_def)
  show ?thesis using eq zero two by simp
qed

definition no_git :: git_metrics where
  "no_git = \<lparr>commitCount = 0, lastCommit = None, isGitTracked = False\<rparr>"

definition env_loop :: env where
  "env_loop =
     \<lparr>cwd = ''/'', fs_root = ''/p'',
      fs_tree = Directory (Some [(''src'', Directory (Some
        [(''loop.js'', RegFile (Some ''if (a) { for (;;) { ifs() } }''))]))]),
      createSourceFile = (\<lambda>p c. OtherNode []),
      random36 = (\<lambda>n. ''r'' @ decimal n),
      getGitMetrics = (\<lambda>p r. no_git),
      parseManifest = (\<lambda>t. None),
      now = ''2024-01-01T00:00:00.000Z''\<rparr>"

theorem cyclomaticComplexity_counts_keywords_witness:
  "case analyzeFile env_loop ''/p/src/loop.js'' ''/p'' 0 of
     Inl e \<Rightarrow> False
   | Inr (classData, n') \<Rightarrow>
       cyclomaticComplexity (c_complexityMetrics classData) = 2 \<and>
       length (occurrences ''if (a) { for (;;) { ifs() } }'' ''if'') = 1 \<and>
       length (occurrences ''if (a) { for (;;) { ifs() } }'' ''for'') = 1"
proof -
  let ?text = "''if (a) { for (;;) { ifs() } }''"
  have "case analyzeFile env_loop ''/p/src/loop.js'' ''/p'' 0 of Inl e \<Rightarrow> False | Inr r \<Rightarrow> True"
    by code_simp
  then obtain classData n' where
    a: "analyzeFile env_loop ''/p/src/loop.js'' ''/p'' 0 = Inr (classData, n')"
    by (auto split: sum.splits)
  have r: "readFileSync env_loop ''/p/src/loop.js'' = Inr ?text" by code_simp
  have o: "length (occurrences ?text ''if'') = 1" "length (occurrences ?text ''for'') = 1"
    "\<forall>k\<in>set trigger_keywords. k \<noteq> ''if'' \<and> k \<noteq> ''for'' \<longrightarrow> occurrences ?text k = []"
    by code_simp+
  from cyclomaticComplexity_counts_keywords[OF r a] o
  have "cyclomaticComplexity (c_complexityMetrics classData) = 2" by blast
  with a o show ?thesis by simp
qed

end
